theory Spec2Isabelle
  imports Main "HOL-Library.Word"
begin

section \<open>The HDR data-space bridge of native-hdr.c\<close>

text \<open>
  The repository has one C function, the JNI entry point
  \<^verbatim>\<open>Java_com_pgeneratorplus_android_hdr_HdrEglHelper_nativeSetBuffersDataSpace\<close>.
  It keeps two function-local statics (\<^verbatim>\<open>pfn\<close> and \<^verbatim>\<open>resolved\<close>), resolves the
  platform setter through the dynamic linker on its first run, acquires a native window
  from the surface, calls the setter and releases the window.

  Of its four parameters the function uses \<^verbatim>\<open>env\<close> only to pass it on to the acquisition
  and \<^verbatim>\<open>thiz\<close> not at all; the model takes the surface and the data space.

  Everything the function calls is platform code: \<^verbatim>\<open>dlsym\<close>, \<^verbatim>\<open>dlopen\<close>,
  \<^verbatim>\<open>ANativeWindow_fromSurface\<close>, \<^verbatim>\<open>ANativeWindow_release\<close>, the resolved setter and
  \<^verbatim>\<open>__android_log_print\<close>. The platform is a parameter of the model (a record of
  functions), and every call into it leaves an event in a trace, so that "was invoked",
  "exactly once" and "before" are statements about the trace of a call.
\<close>

subsection \<open>Data\<close>

text \<open>
  Pointers are addresses; the null pointer is address 0, as the checks
  \<^verbatim>\<open>if (!pfn)\<close>, \<^verbatim>\<open>if (lib)\<close> and \<^verbatim>\<open>window == NULL\<close> of the source read it.
  \<^verbatim>\<open>jint\<close> and \<^verbatim>\<open>int32_t\<close> are 32-bit words; \<open>sint\<close> reads them as signed.
\<close>

type_synonym ptr = nat
type_synonym int32 = "32 word"

abbreviation (input) NULL :: ptr where
  "NULL \<equiv> 0"

text \<open>
  The first argument of \<^verbatim>\<open>dlsym\<close>: the pseudo-handle \<^verbatim>\<open>RTLD_DEFAULT\<close> (search every
  loaded library) or a handle that \<^verbatim>\<open>dlopen\<close> returned. The second argument of
  \<^verbatim>\<open>dlopen\<close> is a binding mode.
\<close>

datatype dl_handle = RTLD_DEFAULT | Lib ptr

datatype dl_mode = RTLD_LAZY | RTLD_NOW

datatype log_prio = ANDROID_LOG_INFO | ANDROID_LOG_WARN

text \<open>One event for each call the function makes into the platform, with its arguments.\<close>

datatype event =
    Dlsym dl_handle string
  | Dlopen string dl_mode
  | FromSurface ptr
  | Invoke ptr ptr int32
  | Release ptr
  | Log log_prio string "int32 list"

text \<open>
  The platform, as the function sees it. \<open>dlsym\<close> and \<open>dlopen\<close> return an address or
  \<open>NULL\<close>; \<open>fromSurface\<close> is the window that \<^verbatim>\<open>ANativeWindow_fromSurface(env, surface)\<close>
  returns for a surface reference (the \<^verbatim>\<open>JNIEnv\<close> belongs to the platform);
  \<open>call_fn f w d\<close> is the value that the function at address \<open>f\<close> returns when it is
  called with the window \<open>w\<close> and the data space \<open>d\<close>.
\<close>

record platform =
  dlsym :: "dl_handle \<Rightarrow> string \<Rightarrow> ptr"
  dlopen :: "string \<Rightarrow> dl_mode \<Rightarrow> ptr"
  fromSurface :: "ptr \<Rightarrow> ptr"
  call_fn :: "ptr \<Rightarrow> ptr \<Rightarrow> int32 \<Rightarrow> int32"

text \<open>
  The state that outlives a call: the two statics of the function (lines 36 and 37 of
  the source), and the reference count that the platform keeps for each native window.
\<close>

record state =
  pfn :: ptr
  resolved :: int
  refcount :: "ptr \<Rightarrow> int"

text \<open>The statics as the C initialisers leave them when the library is loaded.\<close>

definition init_state :: "(ptr \<Rightarrow> int) \<Rightarrow> state" where
  "init_state rc = \<lparr>pfn = NULL, resolved = 0, refcount = rc\<rparr>"

text \<open>What a call gives back: the returned \<^verbatim>\<open>jint\<close>, the state it leaves, its events.\<close>

record outcome =
  status :: int32
  post :: state
  events :: "event list"

subsection \<open>The platform's window functions\<close>

text \<open>
  Modelled from the spec: the bodies of \<^verbatim>\<open>ANativeWindow_fromSurface\<close> and
  \<^verbatim>\<open>ANativeWindow_release\<close> are platform code. Section 4.2 of the specification gives
  their contract: acquire "turns a managed surface handle into a platform handle and
  increments its internal reference count" and "returns null if the surface is invalid
  or the conversion fails"; release "drops exactly one reference on the platform handle".
\<close>

definition ANativeWindow_fromSurface :: "platform \<Rightarrow> ptr \<Rightarrow> state \<Rightarrow> ptr \<times> state" where
  "ANativeWindow_fromSurface p surface st =
     (let window = fromSurface p surface
      in if window = NULL then (NULL, st)
         else (window, st\<lparr>refcount := (refcount st)(window := refcount st window + 1)\<rparr>))"

definition ANativeWindow_release :: "ptr \<Rightarrow> state \<Rightarrow> state" where
  "ANativeWindow_release window st =
     st\<lparr>refcount := (refcount st)(window := refcount st window - 1)\<rparr>"

subsection \<open>The function\<close>

definition sym_name :: string where
  "sym_name = ''ANativeWindow_setBuffersDataSpace''"

definition lib_name :: string where
  "lib_name = ''libnativewindow.so''"

text \<open>
  Lines 38 to 60: the one-shot resolution. The flag is set first (line 39), then the
  default-scope lookup is stored in \<^verbatim>\<open>pfn\<close> (line 41); only when that is null the
  library is opened (line 45) and, when it opened, searched (line 47). Lines 55 to 59 log
  the result. The function returns the state and the events of the block.
\<close>

definition resolve_in_lib :: "platform \<Rightarrow> state \<Rightarrow> state \<times> event list" where
  "resolve_in_lib p st =
     (let lib = dlopen p lib_name RTLD_LAZY
      in if lib \<noteq> NULL then
           (let st' = st\<lparr>pfn := dlsym p (Lib lib) sym_name\<rparr>
            in (st', [Dlopen lib_name RTLD_LAZY, Dlsym (Lib lib) sym_name] @
                     (if pfn st' \<noteq> NULL
                      then [Log ANDROID_LOG_INFO ''Resolved via dlopen(libnativewindow.so)'' []]
                      else [])))
         else (st, [Dlopen lib_name RTLD_LAZY]))"

definition log_resolution :: "state \<Rightarrow> event list" where
  "log_resolution st =
     (if pfn st \<noteq> NULL
      then [Log ANDROID_LOG_INFO ''ANativeWindow_setBuffersDataSpace resolved'' []]
      else [Log ANDROID_LOG_WARN
              ''ANativeWindow_setBuffersDataSpace not available (API < 28?)'' []])"

definition resolve :: "platform \<Rightarrow> state \<Rightarrow> state \<times> event list" where
  "resolve p st =
     (if resolved st = 0 then
        (let st1 = st\<lparr>resolved := 1\<rparr>;
             st2 = st1\<lparr>pfn := dlsym p RTLD_DEFAULT sym_name\<rparr>;
             (st3, evs) = (if pfn st2 = NULL then resolve_in_lib p st2 else (st2, []))
         in (st3, [Dlsym RTLD_DEFAULT sym_name] @ evs @ log_resolution st3))
      else (st, []))"

text \<open>
  Lines 62 to 81, after the resolution: the guard on \<^verbatim>\<open>pfn\<close>, the acquisition, the
  call through the pointer, the release, the log line and the returned value.
\<close>

definition log_result :: "int32 \<Rightarrow> int32 \<Rightarrow> event" where
  "log_result dataSpace result =
     (if result = 0
      then Log ANDROID_LOG_INFO ''Set buffer data space to 0x%08x via NDK'' [dataSpace]
      else Log ANDROID_LOG_WARN ''ANativeWindow_setBuffersDataSpace(0x%08x) failed: %d''
             [dataSpace, result])"

definition dispatch :: "platform \<Rightarrow> state \<Rightarrow> ptr \<Rightarrow> int32 \<Rightarrow> outcome" where
  "dispatch p st surface dataSpace =
     (if pfn st = NULL then \<lparr>status = - 2, post = st, events = []\<rparr>
      else
        (let (window, st1) = ANativeWindow_fromSurface p surface st
         in if window = NULL then
              \<lparr>status = - 1, post = st1,
               events = [FromSurface surface,
                         Log ANDROID_LOG_WARN ''Failed to get ANativeWindow from Surface'' []]\<rparr>
            else
              (let result = call_fn p (pfn st1) window dataSpace;
                   st2 = ANativeWindow_release window st1
               in \<lparr>status = result, post = st2,
                   events = [FromSurface surface, Invoke (pfn st1) window dataSpace,
                             Release window, log_result dataSpace result]\<rparr>)))"

text \<open>
  The whole entry point, for a call that runs from its first statement to its return
  without another call in between: resolution, then dispatch, the events in order.
\<close>

definition nativeSetBuffersDataSpace :: "platform \<Rightarrow> state \<Rightarrow> ptr \<Rightarrow> int32 \<Rightarrow> outcome" where
  "nativeSetBuffersDataSpace p st surface dataSpace =
     (let (st1, evs) = resolve p st;
          r = dispatch p st1 surface dataSpace
      in r\<lparr>events := evs @ events r\<rparr>)"

subsection \<open>Reading a trace\<close>

fun is_invoke :: "event \<Rightarrow> bool" where
  "is_invoke (Invoke f w d) = True"
| "is_invoke e = False"

fun is_release :: "event \<Rightarrow> bool" where
  "is_release (Release w) = True"
| "is_release e = False"

fun is_acquire :: "event \<Rightarrow> bool" where
  "is_acquire (FromSurface s) = True"
| "is_acquire e = False"

fun is_lookup :: "event \<Rightarrow> bool" where
  "is_lookup (Dlsym h n) = True"
| "is_lookup (Dlopen n m) = True"
| "is_lookup e = False"

fun is_default_lookup :: "event \<Rightarrow> bool" where
  "is_default_lookup (Dlsym RTLD_DEFAULT n) = True"
| "is_default_lookup e = False"

definition invocations :: "event list \<Rightarrow> nat" where
  "invocations evs = length (filter is_invoke evs)"

text \<open>
  The specification's three-valued view of the two statics: the flag tells whether the
  resolution ran, the pointer what it found.
\<close>

datatype resolved_symbol = Unresolved | Available ptr | Unavailable

definition resolver_state :: "state \<Rightarrow> resolved_symbol" where
  "resolver_state st =
     (if resolved st = 0 then Unresolved
      else if pfn st = NULL then Unavailable
      else Available (pfn st))"

subsection \<open>A platform stub for concrete runs\<close>

text \<open>
  \<open>stub f_default lib f_lib ret\<close> is a platform on which the default-scope lookup of the
  setter's name gives \<open>f_default\<close>, opening the library gives \<open>lib\<close>, the lookup inside
  it gives \<open>f_lib\<close>, surface \<open>s\<close> has the window \<open>s + 4096\<close> (the null surface has none),
  and every call of the setter returns \<open>ret\<close>.
\<close>

definition stub :: "ptr \<Rightarrow> ptr \<Rightarrow> ptr \<Rightarrow> int32 \<Rightarrow> platform" where
  "stub f_default lib f_lib ret =
     \<lparr>dlsym = (\<lambda>h n. case h of
                 RTLD_DEFAULT \<Rightarrow> (if n = sym_name then f_default else NULL)
               | Lib l \<Rightarrow> (if l = lib \<and> n = sym_name then f_lib else NULL)),
      dlopen = (\<lambda>n m. if n = lib_name then lib else NULL),
      fromSurface = (\<lambda>s. if s = NULL then NULL else s + 4096),
      call_fn = (\<lambda>f w d. ret)\<rparr>"

definition no_refs :: "ptr \<Rightarrow> int" where
  "no_refs w = 0"

definition unavailable_state :: state where
  "unavailable_state = \<lparr>pfn = NULL, resolved = 1, refcount = no_refs\<rparr>"

definition BT2020_PQ :: int32 where
  "BT2020_PQ = 0x09C60000"

definition BT2020_HLG :: int32 where
  "BT2020_HLG = 0x09460000"

text \<open>
  A platform like \<open>stub 77 0 0\<close> whose setter checks the data space: 0 for the two HDR
  constants of the source's comment, \<open>-22\<close> (\<^verbatim>\<open>-EINVAL\<close>) for anything else.
\<close>

definition picky_platform :: platform where
  "picky_platform =
     (stub 77 0 0 0)\<lparr>call_fn := (\<lambda>f w d. if d = BT2020_PQ \<or> d = BT2020_HLG then 0 else - 22)\<rparr>"


subsection \<open>A process: calls one after another\<close>

text \<open>
  The statics live as long as the process; each call finds them as the call before left
  them. The platform may differ from call to call (a library loaded in between makes a
  symbol appear), so each call comes with the platform it runs on.
\<close>

fun run_calls :: "state \<Rightarrow> (platform \<times> ptr \<times> int32) list \<Rightarrow> outcome list" where
  "run_calls st [] = []"
| "run_calls st ((p, surface, dataSpace) # cs) =
     (let r = nativeSetBuffersDataSpace p st surface dataSpace
      in r # run_calls (post r) cs)"

text \<open>
  Three calls: the symbol is absent at the first and present, in the default scope and in
  the library, at the second and the third.
\<close>

definition absent_then_present :: "(platform \<times> ptr \<times> int32) list" where
  "absent_then_present =
     [(stub 0 0 0 0, 5, BT2020_PQ), (stub 77 3 77 0, 5, BT2020_PQ),
      (stub 77 3 77 0, 6, BT2020_HLG)]"

subsection \<open>Threads: the function in steps\<close>

text \<open>
  The statics are plain variables, and the function takes no lock: calls on several threads
  run through the same statements and share \<^verbatim>\<open>pfn\<close> and \<^verbatim>\<open>resolved\<close>. For such
  calls the function is cut into steps, one for each statement or test, named by its line
  in the source. A step reads or writes the statics as that statement does, and every test
  of \<^verbatim>\<open>pfn\<close> reads the static again, as does the call through it on line 72. A thread
  keeps its arguments and its locals (\<^verbatim>\<open>lib\<close>, \<^verbatim>\<open>window\<close>, \<^verbatim>\<open>result\<close>). It ends by
  returning a status, or by calling through a null pointer.

  Threads interleave whole steps. Unsynchronised C promises less than that; every behaviour
  found here is therefore a behaviour of the code, and what is proved for all schedules is
  proved for interleavings of these steps.
\<close>

datatype label =
    L38 | L39 | L41 | L44 | L45 | L47 | L49 | L55 | L62 | L66 | L72 | L73 | L75
  | Returned int32
  | Crashed

record thread =
  t_pc :: label
  t_surface :: ptr
  t_dataSpace :: int32
  t_lib :: ptr
  t_window :: ptr
  t_result :: int32

definition thread_step :: "platform \<Rightarrow> state \<Rightarrow> thread \<Rightarrow> state \<times> thread \<times> event list" where
  "thread_step p st t =
     (case t_pc t of
        L38 \<Rightarrow> (st, t\<lparr>t_pc := (if resolved st = 0 then L39 else L62)\<rparr>, [])
      | L39 \<Rightarrow> (st\<lparr>resolved := 1\<rparr>, t\<lparr>t_pc := L41\<rparr>, [])
      | L41 \<Rightarrow> (st\<lparr>pfn := dlsym p RTLD_DEFAULT sym_name\<rparr>, t\<lparr>t_pc := L44\<rparr>,
                [Dlsym RTLD_DEFAULT sym_name])
      | L44 \<Rightarrow> (st, t\<lparr>t_pc := (if pfn st = NULL then L45 else L55)\<rparr>, [])
      | L45 \<Rightarrow> (let lib = dlopen p lib_name RTLD_LAZY
                in (st, t\<lparr>t_lib := lib, t_pc := (if lib \<noteq> NULL then L47 else L55)\<rparr>,
                    [Dlopen lib_name RTLD_LAZY]))
      | L47 \<Rightarrow> (st\<lparr>pfn := dlsym p (Lib (t_lib t)) sym_name\<rparr>, t\<lparr>t_pc := L49\<rparr>,
                [Dlsym (Lib (t_lib t)) sym_name])
      | L49 \<Rightarrow> (st, t\<lparr>t_pc := L55\<rparr>,
                if pfn st \<noteq> NULL
                then [Log ANDROID_LOG_INFO ''Resolved via dlopen(libnativewindow.so)'' []]
                else [])
      | L55 \<Rightarrow> (st, t\<lparr>t_pc := L62\<rparr>, log_resolution st)
      | L62 \<Rightarrow> (st, t\<lparr>t_pc := (if pfn st = NULL then Returned (- 2) else L66)\<rparr>, [])
      | L66 \<Rightarrow> (let (window, st') = ANativeWindow_fromSurface p (t_surface t) st
                in if window = NULL
                   then (st', t\<lparr>t_window := window, t_pc := Returned (- 1)\<rparr>,
                         [FromSurface (t_surface t),
                          Log ANDROID_LOG_WARN ''Failed to get ANativeWindow from Surface'' []])
                   else (st', t\<lparr>t_window := window, t_pc := L72\<rparr>,
                         [FromSurface (t_surface t)]))
      | L72 \<Rightarrow> (if pfn st = NULL then (st, t\<lparr>t_pc := Crashed\<rparr>, [])
                else (st, t\<lparr>t_result := call_fn p (pfn st) (t_window t) (t_dataSpace t),
                            t_pc := L73\<rparr>,
                      [Invoke (pfn st) (t_window t) (t_dataSpace t)]))
      | L73 \<Rightarrow> (ANativeWindow_release (t_window t) st, t\<lparr>t_pc := L75\<rparr>,
                [Release (t_window t)])
      | L75 \<Rightarrow> (st, t\<lparr>t_pc := Returned (t_result t)\<rparr>,
                [log_result (t_dataSpace t) (t_result t)])
      | Returned r \<Rightarrow> (st, t, [])
      | Crashed \<Rightarrow> (st, t, []))"

text \<open>
  A system: the shared state, the threads, and the events of all of them in the order in
  which they happened. A schedule names the thread that takes the next step.
\<close>

record system =
  shared :: state
  threads :: "thread list"
  trace :: "event list"

definition entry :: "ptr \<times> int32 \<Rightarrow> thread" where
  "entry c = \<lparr>t_pc = L38, t_surface = fst c, t_dataSpace = snd c,
              t_lib = NULL, t_window = NULL, t_result = 0\<rparr>"

definition init_system :: "(ptr \<Rightarrow> int) \<Rightarrow> (ptr \<times> int32) list \<Rightarrow> system" where
  "init_system rc cs = \<lparr>shared = init_state rc, threads = map entry cs, trace = []\<rparr>"

definition sys_step :: "platform \<Rightarrow> nat \<Rightarrow> system \<Rightarrow> system" where
  "sys_step p i s =
     (if i < length (threads s) then
        (let (st', t', evs) = thread_step p (shared s) (threads s ! i)
         in \<lparr>shared = st', threads = (threads s)[i := t'], trace = trace s @ evs\<rparr>)
      else s)"

fun run_schedule :: "platform \<Rightarrow> system \<Rightarrow> nat list \<Rightarrow> system" where
  "run_schedule p s [] = s"
| "run_schedule p s (i # sched) = run_schedule p (sys_step p i s) sched"

fun finished :: "thread \<Rightarrow> bool" where
  "finished t = (case t_pc t of Returned r \<Rightarrow> True | Crashed \<Rightarrow> True | _ \<Rightarrow> False)"

definition default_lookups :: "event list \<Rightarrow> nat" where
  "default_lookups evs = length (filter is_default_lookup evs)"

text \<open>
  Where a thread stands with respect to the default-scope lookup of line 41: it has not
  made it (and may still skip it), or it has passed the test of line 38 and will make it.
\<close>

fun before_lookup :: "thread \<Rightarrow> bool" where
  "before_lookup t = (t_pc t = L38 \<or> t_pc t = L39 \<or> t_pc t = L41)"

fun committed :: "thread \<Rightarrow> bool" where
  "committed t = (t_pc t = L39 \<or> t_pc t = L41)"

text \<open>
  What holds of every system that a schedule reaches from the start: each lookup made is
  the lookup of a thread that has passed line 41; while the flag is clear no thread is
  beyond line 39; and as long as no lookup was made, either nothing has happened yet or
  some thread is about to make one.
\<close>

definition lookup_inv :: "system \<Rightarrow> bool" where
  "lookup_inv s \<longleftrightarrow>
     default_lookups (trace s) + length (filter before_lookup (threads s)) \<le> length (threads s)
   \<and> (resolved (shared s) = 0 \<longrightarrow> list_all (\<lambda>t. t_pc t = L38 \<or> t_pc t = L39) (threads s))
   \<and> (default_lookups (trace s) = 0 \<longrightarrow>
        resolved (shared s) = 0 \<and> list_all (\<lambda>t. t_pc t = L38) (threads s)
        \<or> list_ex committed (threads s))"




text \<open>
  How far a thread has come. Control only moves forward: the function has no loop.
\<close>

fun rank :: "label \<Rightarrow> nat" where
  "rank L38 = 0"
| "rank L39 = 1"
| "rank L41 = 2"
| "rank L44 = 3"
| "rank L45 = 4"
| "rank L47 = 5"
| "rank L49 = 6"
| "rank L55 = 7"
| "rank L62 = 8"
| "rank L66 = 9"
| "rank L72 = 10"
| "rank L73 = 11"
| "rank L75 = 12"
| "rank (Returned r) = 13"
| "rank Crashed = 13"


definition two_calls :: "(ptr \<times> int32) list" where
  "two_calls = [(5, BT2020_PQ), (6, BT2020_HLG)]"

text \<open>
  \<open>early_reader\<close>: thread 0 sets the flag, thread 1 then runs to its end, thread 0 goes on.
  \<open>late_writer\<close>: both threads pass the test of line 38; thread 0 resolves through the
  library and acquires its window; thread 1 then stores its default-scope lookup.
  \<open>both_resolve\<close>: both threads pass the test of line 38, then run one after the other.
\<close>

definition early_reader :: "nat list" where
  "early_reader = [0, 0, 1, 1, 0, 0, 0, 0, 0, 0, 0, 0]"


definition both_resolve :: "nat list" where
  "both_resolve = [0, 1, 0, 0, 0, 0, 0, 0, 0, 0, 0, 1, 1, 1, 1, 1, 1, 1, 1, 1]"

section \<open>Properties\<close>

subsection \<open>The blocks of the function\<close>

lemma resolve_done: "resolved st \<noteq> 0 \<Longrightarrow> resolve p st = (st, [])"
  by (simp add: resolve_def)

lemma resolved_resolve: "resolved (fst (resolve p st)) \<noteq> 0"
  by (simp add: resolve_def resolve_in_lib_def Let_def split: prod.splits)

lemma refcount_resolve: "refcount (fst (resolve p st)) = refcount st"
  by (simp add: resolve_def resolve_in_lib_def Let_def split: prod.splits)

lemma resolve_events_not_surface:
  "e \<in> set (snd (resolve p st)) \<Longrightarrow> \<not> is_invoke e \<and> \<not> is_release e \<and> \<not> is_acquire e"
  by (auto simp add: resolve_def resolve_in_lib_def log_resolution_def Let_def
      split: prod.splits if_splits)

lemma filter_resolve_events:
  "filter is_invoke (snd (resolve p st)) = []"
  "filter is_release (snd (resolve p st)) = []"
  "filter is_acquire (snd (resolve p st)) = []"
  using resolve_events_not_surface [of _ p st] by (simp_all add: filter_empty_conv)

lemma native_unfold:
  "nativeSetBuffersDataSpace p st surface dataSpace =
     (dispatch p (fst (resolve p st)) surface dataSpace)
       \<lparr>events := snd (resolve p st) @ events (dispatch p (fst (resolve p st)) surface dataSpace)\<rparr>"
  by (simp add: nativeSetBuffersDataSpace_def Let_def split: prod.splits)

lemma resolver_state_resolve_Unavailable:
  "resolver_state (fst (resolve p st)) = Unavailable \<longleftrightarrow> pfn (fst (resolve p st)) = NULL"
  using resolved_resolve [of p st] by (simp add: resolver_state_def)

lemma resolver_state_resolve_Available:
  "resolver_state (fst (resolve p st)) = Available f \<longleftrightarrow>
     pfn (fst (resolve p st)) = f \<and> f \<noteq> NULL"
  using resolved_resolve [of p st] by (auto simp add: resolver_state_def)

lemma dispatch_unavailable:
  "pfn st = NULL \<Longrightarrow> dispatch p st surface dataSpace = \<lparr>status = - 2, post = st, events = []\<rparr>"
  by (simp add: dispatch_def)

lemma dispatch_no_window:
  "pfn st \<noteq> NULL \<Longrightarrow> fromSurface p surface = NULL \<Longrightarrow>
   dispatch p st surface dataSpace =
     \<lparr>status = - 1, post = st,
      events = [FromSurface surface,
                Log ANDROID_LOG_WARN ''Failed to get ANativeWindow from Surface'' []]\<rparr>"
  by (simp add: dispatch_def ANativeWindow_fromSurface_def)

lemma dispatch_invoked:
  "pfn st \<noteq> NULL \<Longrightarrow> fromSurface p surface \<noteq> NULL \<Longrightarrow>
   dispatch p st surface dataSpace =
     \<lparr>status = call_fn p (pfn st) (fromSurface p surface) dataSpace, post = st,
      events = [FromSurface surface, Invoke (pfn st) (fromSurface p surface) dataSpace,
                Release (fromSurface p surface),
                log_result dataSpace (call_fn p (pfn st) (fromSurface p surface) dataSpace)]\<rparr>"
  by (simp add: dispatch_def ANativeWindow_fromSurface_def ANativeWindow_release_def Let_def)

lemma statics_dispatch:
  "pfn (post (dispatch p st surface dataSpace)) = pfn st"
  "resolved (post (dispatch p st surface dataSpace)) = resolved st"
  by (simp_all add: dispatch_def ANativeWindow_fromSurface_def ANativeWindow_release_def Let_def
      split: prod.splits)

lemma statics_native:
  "pfn (post (nativeSetBuffersDataSpace p st surface dataSpace)) = pfn (fst (resolve p st))"
  "resolved (post (nativeSetBuffersDataSpace p st surface dataSpace)) =
     resolved (fst (resolve p st))"
  by (simp_all add: native_unfold statics_dispatch)

lemma resolver_state_native:
  "resolver_state (post (nativeSetBuffersDataSpace p st surface dataSpace)) =
     resolver_state (fst (resolve p st))"
  by (simp add: resolver_state_def statics_native)

lemma lookup_events_dispatch: "filter is_lookup (events (dispatch p st surface dataSpace)) = []"
  by (simp add: dispatch_def ANativeWindow_fromSurface_def ANativeWindow_release_def Let_def
      log_result_def split: prod.splits)



lemma resolve_unresolved:
  "resolved st = 0 \<Longrightarrow>
   filter is_lookup (snd (resolve p st)) =
     (if dlsym p RTLD_DEFAULT sym_name \<noteq> NULL then [Dlsym RTLD_DEFAULT sym_name]
      else if dlopen p lib_name RTLD_LAZY = NULL
        then [Dlsym RTLD_DEFAULT sym_name, Dlopen lib_name RTLD_LAZY]
      else [Dlsym RTLD_DEFAULT sym_name, Dlopen lib_name RTLD_LAZY,
            Dlsym (Lib (dlopen p lib_name RTLD_LAZY)) sym_name])
   \<and> pfn (fst (resolve p st)) =
     (if dlsym p RTLD_DEFAULT sym_name \<noteq> NULL then dlsym p RTLD_DEFAULT sym_name
      else if dlopen p lib_name RTLD_LAZY = NULL then NULL
      else dlsym p (Lib (dlopen p lib_name RTLD_LAZY)) sym_name)"
  by (simp add: resolve_def resolve_in_lib_def log_resolution_def Let_def)

text \<open>A call that finds the flag set: no lookup, the statics untouched.\<close>

lemma native_terminal:
  assumes "resolved st \<noteq> 0"
  shows "filter is_lookup (events (nativeSetBuffersDataSpace p st surface dataSpace)) = []"
    and "resolver_state (post (nativeSetBuffersDataSpace p st surface dataSpace)) = resolver_state st"
    and "resolved (post (nativeSetBuffersDataSpace p st surface dataSpace)) \<noteq> 0"
    and "pfn st = NULL \<Longrightarrow> status (nativeSetBuffersDataSpace p st surface dataSpace) = - 2"
proof -
  note r = resolve_done [OF assms, of p]
  show "filter is_lookup (events (nativeSetBuffersDataSpace p st surface dataSpace)) = []"
    by (simp add: native_unfold r lookup_events_dispatch)
  show "resolver_state (post (nativeSetBuffersDataSpace p st surface dataSpace)) = resolver_state st"
    by (simp add: resolver_state_native r)
  show "resolved (post (nativeSetBuffersDataSpace p st surface dataSpace)) \<noteq> 0"
    using assms by (simp add: statics_native r)
  show "status (nativeSetBuffersDataSpace p st surface dataSpace) = - 2" if "pfn st = NULL"
    using that by (simp add: native_unfold r dispatch_unavailable)
qed

lemma run_calls_terminal:
  assumes "resolved st \<noteq> 0"
  shows "filter is_lookup (concat (map events (run_calls st cs))) = []
       \<and> map (\<lambda>r. resolver_state (post r)) (run_calls st cs) =
           replicate (length cs) (resolver_state st)
       \<and> (pfn st = NULL \<longrightarrow> map status (run_calls st cs) = replicate (length cs) (- 2))"
  using assms
proof (induction cs arbitrary: st)
  case Nil
  then show ?case by simp
next
  case (Cons c cs)
  obtain p surface dataSpace where c: "c = (p, surface, dataSpace)"
    by (cases c)
  let ?r = "nativeSetBuffersDataSpace p st surface dataSpace"
  note t = native_terminal [OF Cons.prems, of p surface dataSpace]
  have same: "resolver_state (post ?r) = resolver_state st"
    by (rule t(2))
  have null: "pfn st = NULL \<Longrightarrow> pfn (post ?r) = NULL"
    using same t(3) Cons.prems by (simp add: resolver_state_def split: if_splits)
  show ?case
    using Cons.IH [OF t(3)] t(1) t(4) same null by (simp add: c Let_def)
qed

lemma default_lookup_is_lookup:
  "filter is_lookup evs = [] \<Longrightarrow> filter is_default_lookup evs = []"
proof (induction evs)
  case Nil
  then show ?case by simp
next
  case (Cons e evs)
  then show ?case by (cases e) (auto split: if_splits)
qed

text \<open>Unfolding everything evaluates a call on a concrete platform.\<close>

lemmas run_defs =
  nativeSetBuffersDataSpace_def resolve_def resolve_in_lib_def log_resolution_def dispatch_def
  ANativeWindow_fromSurface_def ANativeWindow_release_def log_result_def stub_def init_state_def
  invocations_def Let_def

subsection \<open>The steps of a thread\<close>

lemma length_filter_update:
  "i < length xs \<Longrightarrow>
   length (filter P (xs[i := y])) + (if P (xs ! i) then 1 else 0) =
   length (filter P xs) + (if P y then 1 else 0)"
proof (induction xs arbitrary: i)
  case Nil
  then show ?case by simp
next
  case (Cons x xs)
  then show ?case by (cases i) auto
qed

text \<open>
  What one step does to the number of lookups, to the flag and to the place of the thread
  that takes it.
\<close>

lemma thread_step_lookup:
  assumes "thread_step p st t = (st', t', evs)"
  shows "default_lookups evs + (if before_lookup t' then 1 else 0) \<le>
         (if before_lookup t then 1 else 0)"
    and "default_lookups evs = (if t_pc t = L41 then 1 else 0)"
  using assms
  by (cases "t_pc t";
      auto simp add: thread_step_def default_lookups_def log_resolution_def log_result_def
        Let_def split: prod.splits if_splits)+

lemma thread_step_resolved:
  assumes "thread_step p st t = (st', t', evs)"
  shows "resolved st' = (if t_pc t = L39 then 1 else resolved st)"
  using assms
  by (cases "t_pc t")
     (auto simp add: thread_step_def ANativeWindow_fromSurface_def ANativeWindow_release_def
        Let_def split: prod.splits if_splits)

lemma thread_step_pc:
  assumes "thread_step p st t = (st', t', evs)"
  shows "t_pc t = L38 \<Longrightarrow> resolved st = 0 \<Longrightarrow> t_pc t' = L39"
    and "t_pc t = L39 \<Longrightarrow> t_pc t' = L41"
  using assms
  by (auto simp add: thread_step_def split: if_splits)

lemma default_lookups_append:
  "default_lookups (xs @ ys) = default_lookups xs + default_lookups ys"
  by (simp add: default_lookups_def)

text \<open>The invariant holds at the start, and every step of every thread keeps it.\<close>

lemma lookup_inv_init: "lookup_inv (init_system rc cs)"
  by (simp add: lookup_inv_def init_system_def init_state_def default_lookups_def entry_def
      list_all_length)

lemma lookup_inv_step:
  assumes inv: "lookup_inv s"
  shows "lookup_inv (sys_step p i s)"
proof (cases "i < length (threads s)")
  case False
  with inv show ?thesis by (simp add: sys_step_def)
next
  case i: True
  let ?t = "threads s ! i"
  obtain st' t' evs where step: "thread_step p (shared s) ?t = (st', t', evs)"
    by (cases "thread_step p (shared s) ?t")
  have s': "sys_step p i s =
            \<lparr>shared = st', threads = (threads s)[i := t'], trace = trace s @ evs\<rparr>"
    using i step by (simp add: sys_step_def)
  note lk = thread_step_lookup [OF step]
  note rs = thread_step_resolved [OF step]
  note pc = thread_step_pc [OF step]
  from inv have count: "default_lookups (trace s) + length (filter before_lookup (threads s))
                        \<le> length (threads s)"
    and early: "resolved (shared s) = 0 \<Longrightarrow> \<forall>n<length (threads s).
                  t_pc (threads s ! n) = L38 \<or> t_pc (threads s ! n) = L39"
    and none: "default_lookups (trace s) = 0 \<Longrightarrow>
                 resolved (shared s) = 0 \<and> (\<forall>n<length (threads s). t_pc (threads s ! n) = L38)
                 \<or> (\<exists>n<length (threads s). committed (threads s ! n))"
    by (simp_all add: lookup_inv_def list_all_length list_ex_length)
  have c1: "default_lookups (trace s @ evs) + length (filter before_lookup ((threads s)[i := t']))
            \<le> length ((threads s)[i := t'])"
    using count lk(1) length_filter_update [OF i, of before_lookup t']
    by (simp add: default_lookups_append split: if_splits)
  have c2: "\<forall>n<length ((threads s)[i := t']).
              t_pc ((threads s)[i := t'] ! n) = L38 \<or> t_pc ((threads s)[i := t'] ! n) = L39"
    if z: "resolved st' = 0"
  proof -
    from z rs have not39: "t_pc ?t \<noteq> L39" and z0: "resolved (shared s) = 0"
      by (auto split: if_splits)
    from early [OF z0] i not39 have "t_pc ?t = L38"
      by blast
    then have "t_pc t' = L39"
      using pc(1) z0 by simp
    then show ?thesis
      using early [OF z0] i by (auto simp add: nth_list_update)
  qed
  have c3: "resolved st' = 0 \<and> (\<forall>n<length ((threads s)[i := t']). t_pc ((threads s)[i := t'] ! n) = L38)
            \<or> (\<exists>n<length ((threads s)[i := t']). committed ((threads s)[i := t'] ! n))"
    if z: "default_lookups (trace s @ evs) = 0"
  proof -
    from z have z0: "default_lookups (trace s) = 0" and ze: "default_lookups evs = 0"
      by (simp_all add: default_lookups_append)
    from ze lk(2) have not41: "t_pc ?t \<noteq> L41"
      by (auto split: if_splits)
    from none [OF z0] show ?thesis
    proof
      assume a: "resolved (shared s) = 0 \<and> (\<forall>n<length (threads s). t_pc (threads s ! n) = L38)"
      with i have "t_pc ?t = L38"
        by blast
      with a pc(1) have "committed t'"
        by simp
      with i have "\<exists>n<length ((threads s)[i := t']). committed ((threads s)[i := t'] ! n)"
        by (intro exI [of _ i]) simp
      then show ?thesis ..
    next
      assume "\<exists>n<length (threads s). committed (threads s ! n)"
      then obtain n where n: "n < length (threads s)" and cn: "committed (threads s ! n)"
        by blast
      show ?thesis
      proof (cases "n = i")
        case True
        with cn not41 have "t_pc ?t = L39"
          by simp
        with pc(2) have "committed t'"
          by simp
        with i have "\<exists>n<length ((threads s)[i := t']). committed ((threads s)[i := t'] ! n)"
          by (intro exI [of _ i]) simp
        then show ?thesis ..
      next
        case False
        with n cn have "\<exists>n<length ((threads s)[i := t']). committed ((threads s)[i := t'] ! n)"
          by (intro exI [of _ n]) (simp add: nth_list_update)
        then show ?thesis ..
      qed
    qed
  qed
  show ?thesis
    unfolding s' lookup_inv_def list_all_length list_ex_length
    using c1 c2 c3 by simp
qed

lemma length_threads_step: "length (threads (sys_step p i s)) = length (threads s)"
  by (simp add: sys_step_def Let_def split: prod.splits)

lemma run_schedule_inv:
  "lookup_inv s \<Longrightarrow>
   lookup_inv (run_schedule p s sched) \<and>
   length (threads (run_schedule p s sched)) = length (threads s)"
proof (induction sched arbitrary: s)
  case Nil
  then show ?case by simp
next
  case (Cons i sched)
  from Cons.IH [OF lookup_inv_step [OF Cons.prems, of p i]] show ?case
    by (simp add: length_threads_step)
qed

text \<open>
  Every step of a thread that has not ended moves it forward, and the steps of the others
  leave it where it is. So a schedule that gives each thread 13 steps ends them all.
\<close>

lemma rank_finished: "finished t \<longleftrightarrow> rank (t_pc t) = 13"
  by (cases "t_pc t") simp_all

lemma rank_le: "rank l \<le> 13"
  by (cases l) simp_all

lemma thread_step_rank:
  assumes "thread_step p st t = (st', t', evs)"
  shows "min 13 (Suc (rank (t_pc t))) \<le> rank (t_pc t')"
  using assms
  by (cases "t_pc t")
     (auto simp add: thread_step_def ANativeWindow_fromSurface_def Let_def
        split: prod.splits if_splits)

lemma sys_step_rank:
  assumes "i < length (threads s)"
  shows "min 13 (rank (t_pc (threads s ! i)) + (if j = i then 1 else 0))
         \<le> rank (t_pc (threads (sys_step p j s) ! i))"
proof (cases "j < length (threads s)")
  case False
  with assms show ?thesis by (auto simp add: sys_step_def)
next
  case j: True
  obtain st' t' evs where step: "thread_step p (shared s) (threads s ! j) = (st', t', evs)"
    by (cases "thread_step p (shared s) (threads s ! j)")
  have s': "threads (sys_step p j s) = (threads s)[j := t']"
    using j step by (simp add: sys_step_def)
  have nth: "threads (sys_step p j s) ! i = (if j = i then t' else threads s ! i)"
    using assms by (simp add: s' nth_list_update)
  show ?thesis
    using thread_step_rank [OF step] by (auto simp add: nth)
qed

lemma run_schedule_rank:
  "i < length (threads s) \<Longrightarrow>
   min 13 (rank (t_pc (threads s ! i)) + count_list sched i)
   \<le> rank (t_pc (threads (run_schedule p s sched) ! i))"
proof (induction sched arbitrary: s)
  case Nil
  then show ?case by simp
next
  case (Cons j sched)
  let ?s = "sys_step p j s"
  from Cons.prems have i: "i < length (threads ?s)"
    by (simp add: length_threads_step)
  from Cons.IH [OF i] sys_step_rank [OF Cons.prems, of j p]
  show ?case
    by (auto split: if_splits)
qed

lemma fair_schedule_finishes:
  assumes "\<forall>i<length cs. 13 \<le> count_list sched i"
  shows "list_all finished (threads (run_schedule p (init_system rc cs) sched))"
proof -
  let ?s = "run_schedule p (init_system rc cs) sched"
  have len: "length (threads ?s) = length cs"
    using run_schedule_inv [OF lookup_inv_init, of p rc cs sched] by (simp add: init_system_def)
  have "finished (threads ?s ! i)" if i: "i < length cs" for i
  proof -
    from i have "i < length (threads (init_system rc cs))"
      by (simp add: init_system_def)
    from run_schedule_rank [OF this, of sched p] assms i
    have "13 \<le> rank (t_pc (threads ?s ! i))"
      by auto
    with rank_le [of "t_pc (threads ?s ! i)"] show ?thesis
      by (simp add: rank_finished del: finished.simps)
  qed
  then show ?thesis
    by (simp add: list_all_length len)
qed











text \<open>Unfolding everything evaluates a schedule on a concrete platform.\<close>

lemmas sched_defs =
  init_system_def init_state_def entry_def two_calls_def sys_step_def thread_step_def stub_def
  ANativeWindow_fromSurface_def ANativeWindow_release_def log_resolution_def log_result_def
  resolver_state_def invocations_def default_lookups_def BT2020_PQ_def BT2020_HLG_def
  sym_name_def lib_name_def





subsection \<open>The claims\<close>

text \<open>
  C1, as the specification states it: a returned \<open>-2\<close> or \<open>-1\<close> implies that the setter
  was not invoked. The function returns the setter's value unchanged (line 81), so a setter
  that itself returns \<open>-2\<close> gives a call that returns \<open>-2\<close> and has invoked the setter
  once. The stated claim fails there.
\<close>

theorem status_minus_2_after_invocation:
  "status (nativeSetBuffersDataSpace (stub 77 0 0 (- 2)) (init_state no_refs) 5 BT2020_PQ) = - 2
   \<and> invocations
       (events (nativeSetBuffersDataSpace (stub 77 0 0 (- 2)) (init_state no_refs) 5 BT2020_PQ)) = 1"
  by (simp add: run_defs)

text \<open>
  C1, amended. On every call the setter is invoked at most once. A returned status other
  than \<open>-2\<close> and \<open>-1\<close> implies that it was invoked exactly once. A returned \<open>-2\<close>
  (respectively \<open>-1\<close>) implies that it was not invoked, provided that the setter does not
  itself return \<open>-2\<close> (respectively \<open>-1\<close>) for the window and data space of this call.
  Whenever it was invoked, the returned status is the value it returned.
\<close>

theorem status_side_effect:
  "invocations (events (nativeSetBuffersDataSpace p st surface dataSpace)) \<le> 1
   \<and> (status (nativeSetBuffersDataSpace p st surface dataSpace) \<noteq> - 2
      \<and> status (nativeSetBuffersDataSpace p st surface dataSpace) \<noteq> - 1
      \<longrightarrow> invocations (events (nativeSetBuffersDataSpace p st surface dataSpace)) = 1)
   \<and> (status (nativeSetBuffersDataSpace p st surface dataSpace) = - 2
      \<and> call_fn p (pfn (post (nativeSetBuffersDataSpace p st surface dataSpace)))
           (fromSurface p surface) dataSpace \<noteq> - 2
      \<longrightarrow> invocations (events (nativeSetBuffersDataSpace p st surface dataSpace)) = 0)
   \<and> (status (nativeSetBuffersDataSpace p st surface dataSpace) = - 1
      \<and> call_fn p (pfn (post (nativeSetBuffersDataSpace p st surface dataSpace)))
           (fromSurface p surface) dataSpace \<noteq> - 1
      \<longrightarrow> invocations (events (nativeSetBuffersDataSpace p st surface dataSpace)) = 0)
   \<and> (invocations (events (nativeSetBuffersDataSpace p st surface dataSpace)) = 1
      \<longrightarrow> status (nativeSetBuffersDataSpace p st surface dataSpace) =
            call_fn p (pfn (post (nativeSetBuffersDataSpace p st surface dataSpace)))
              (fromSurface p surface) dataSpace)"
proof (cases "pfn (fst (resolve p st)) = NULL")
  case True
  then show ?thesis
    by (simp add: native_unfold dispatch_unavailable invocations_def filter_resolve_events)
next
  case avail: False
  show ?thesis
  proof (cases "fromSurface p surface = NULL")
    case True
    with avail show ?thesis
      by (simp add: native_unfold dispatch_no_window invocations_def filter_resolve_events)
  next
    case False
    with avail show ?thesis
      by (simp add: native_unfold dispatch_invoked invocations_def filter_resolve_events
          log_result_def)
  qed
qed

text \<open>
  Three runs on a setter that returns 0: a valid surface with the symbol present (status 0,
  one invocation), the symbol absent (status \<open>-2\<close>, none), the null surface (status \<open>-1\<close>,
  none).
\<close>

theorem status_side_effect_witness:
  "status (nativeSetBuffersDataSpace (stub 77 0 0 0) (init_state no_refs) 5 BT2020_PQ) \<noteq> - 2
   \<and> status (nativeSetBuffersDataSpace (stub 77 0 0 0) (init_state no_refs) 5 BT2020_PQ) \<noteq> - 1
   \<and> invocations
       (events (nativeSetBuffersDataSpace (stub 77 0 0 0) (init_state no_refs) 5 BT2020_PQ)) = 1
   \<and> status (nativeSetBuffersDataSpace (stub 0 0 0 0) (init_state no_refs) 5 BT2020_PQ) = - 2
   \<and> call_fn (stub 0 0 0 0)
        (pfn (post (nativeSetBuffersDataSpace (stub 0 0 0 0) (init_state no_refs) 5 BT2020_PQ)))
        (fromSurface (stub 0 0 0 0) 5) BT2020_PQ \<noteq> - 2
   \<and> invocations
       (events (nativeSetBuffersDataSpace (stub 0 0 0 0) (init_state no_refs) 5 BT2020_PQ)) = 0
   \<and> status (nativeSetBuffersDataSpace (stub 77 0 0 0) (init_state no_refs) 0 BT2020_PQ) = - 1
   \<and> call_fn (stub 77 0 0 0)
        (pfn (post (nativeSetBuffersDataSpace (stub 77 0 0 0) (init_state no_refs) 0 BT2020_PQ)))
        (fromSurface (stub 77 0 0 0) 0) BT2020_PQ \<noteq> - 1
   \<and> invocations
       (events (nativeSetBuffersDataSpace (stub 77 0 0 0) (init_state no_refs) 0 BT2020_PQ)) = 0"
proof -
  have a: "status (nativeSetBuffersDataSpace (stub 77 0 0 0) (init_state no_refs) 5 BT2020_PQ) = 0"
    by (simp add: run_defs)
  have b: "status (nativeSetBuffersDataSpace (stub 0 0 0 0) (init_state no_refs) 5 BT2020_PQ) = - 2"
    by (simp add: run_defs)
  have c: "status (nativeSetBuffersDataSpace (stub 77 0 0 0) (init_state no_refs) 0 BT2020_PQ) = - 1"
    by (simp add: run_defs)
  have d: "call_fn (stub f l g 0) x y z = 0" for f l g x y z
    by (simp add: stub_def)
  show ?thesis
    using status_side_effect [of "stub 77 0 0 0" "init_state no_refs" 5 BT2020_PQ]
      status_side_effect [of "stub 0 0 0 0" "init_state no_refs" 5 BT2020_PQ]
      status_side_effect [of "stub 77 0 0 0" "init_state no_refs" 0 BT2020_PQ]
    by (simp add: a b c d)
qed

text \<open>
  C2, as the specification states it: with \<open>K\<close> threads each calling once, all threads
  observe the same terminal outcome of the resolver and none an inconsistent one. The flag
  is set on line 39, before the pointer is stored on line 41. On a platform that has the
  symbol, whose setter returns 0, the schedule \<open>early_reader\<close> lets thread 1 find the
  flag set and the pointer still null: it returns \<open>-2\<close>, while thread 0 resolves the
  symbol, invokes it and returns 0, and the resolver ends available.
\<close>

theorem early_reader_returns_minus_2:
  "list_all finished
     (threads (run_schedule (stub 77 0 0 0) (init_system no_refs two_calls) early_reader))
   \<and> map t_pc
       (threads (run_schedule (stub 77 0 0 0) (init_system no_refs two_calls) early_reader))
       = [Returned 0, Returned (- 2)]
   \<and> resolver_state
       (shared (run_schedule (stub 77 0 0 0) (init_system no_refs two_calls) early_reader))
       = Available 77
   \<and> invocations
       (trace (run_schedule (stub 77 0 0 0) (init_system no_refs two_calls) early_reader)) = 1"
  by (simp add: early_reader_def sched_defs)

text \<open>
  C2, amended. With \<open>K \<ge> 1\<close> threads each calling once, under every schedule of their
  steps, the number of default-scope lookups made is at most \<open>K\<close> at any time, and once
  all threads have ended it is at least 1 and the resolver is no longer unresolved.
\<close>

theorem lookups_between_1_and_K:
  assumes "cs \<noteq> []"
  shows "default_lookups (trace (run_schedule p (init_system rc cs) sched)) \<le> length cs
       \<and> (list_all finished (threads (run_schedule p (init_system rc cs) sched)) \<longrightarrow>
            1 \<le> default_lookups (trace (run_schedule p (init_system rc cs) sched))
          \<and> resolver_state (shared (run_schedule p (init_system rc cs) sched)) \<noteq> Unresolved)"
proof -
  let ?s = "run_schedule p (init_system rc cs) sched"
  from run_schedule_inv [OF lookup_inv_init, of p rc cs sched]
  have inv: "lookup_inv ?s" and len: "length (threads ?s) = length cs"
    by (simp_all add: init_system_def)
  from assms len obtain t ts where ts: "threads ?s = t # ts"
    by (cases "threads ?s") auto
  from inv len have upper: "default_lookups (trace ?s) \<le> length cs"
    by (simp add: lookup_inv_def)
  have lower: "1 \<le> default_lookups (trace ?s) \<and> resolved (shared ?s) \<noteq> 0"
    if fin: "list_all finished (threads ?s)"
  proof -
    have nc: "\<not> list_ex committed (threads ?s)"
      using fin by (auto simp add: list_all_iff list_ex_iff split: label.splits)
    have n38: "\<not> list_all (\<lambda>t. t_pc t = L38) (threads ?s)"
      using fin by (auto simp add: ts)
    have n389: "\<not> list_all (\<lambda>t. t_pc t = L38 \<or> t_pc t = L39) (threads ?s)"
      using fin by (auto simp add: ts)
    from inv nc n38 n389 show ?thesis
      by (auto simp add: lookup_inv_def)
  qed
  show ?thesis
    using upper lower by (auto simp add: resolver_state_def)
qed

text \<open>
  Two threads: under \<open>both_resolve\<close> each makes the lookup (two lookups, \<open>K = 2\<close>), under
  \<open>early_reader\<close> only thread 0 does.
\<close>

theorem lookups_between_1_and_K_witness:
  "two_calls \<noteq> []
   \<and> list_all finished
       (threads (run_schedule (stub 77 0 0 0) (init_system no_refs two_calls) both_resolve))
   \<and> default_lookups
       (trace (run_schedule (stub 77 0 0 0) (init_system no_refs two_calls) both_resolve)) = 2
   \<and> resolver_state
       (shared (run_schedule (stub 77 0 0 0) (init_system no_refs two_calls) both_resolve))
       \<noteq> Unresolved
   \<and> length two_calls = 2"
proof -
  have n: "two_calls \<noteq> []"
    by (simp add: two_calls_def)
  have f: "list_all finished
       (threads (run_schedule (stub 77 0 0 0) (init_system no_refs two_calls) both_resolve))"
    by (simp add: both_resolve_def sched_defs)
  have d: "default_lookups
       (trace (run_schedule (stub 77 0 0 0) (init_system no_refs two_calls) both_resolve)) = 2"
    by (simp add: both_resolve_def sched_defs)
  have l: "length two_calls = 2"
    by (simp add: two_calls_def)
  show ?thesis
    using n f d l lookups_between_1_and_K [OF n, of "stub 77 0 0 0" no_refs both_resolve]
    by simp
qed

text \<open>
  C3. In a process of \<open>N \<ge> 1\<close> calls, started with the statics as initialised, the
  resolution runs once: the calls together make one default-scope lookup, and no call
  after the first makes any \<^verbatim>\<open>dlsym\<close> or \<^verbatim>\<open>dlopen\<close> call. After the first call the
  resolver is never unresolved again, and after every call it is what the first call left:
  one of available or unavailable, the same throughout. When the first call left it
  unavailable, every call of the process returns \<open>-2\<close>, whatever platform the later calls
  run on.
\<close>

theorem resolution_at_most_once:
  assumes "cs \<noteq> []"
  shows "length (filter is_default_lookup
           (concat (map events (run_calls (init_state rc) cs)))) = 1
       \<and> filter is_lookup (concat (map events (tl (run_calls (init_state rc) cs)))) = []
       \<and> resolver_state (post (hd (run_calls (init_state rc) cs))) \<noteq> Unresolved
       \<and> map (\<lambda>r. resolver_state (post r)) (run_calls (init_state rc) cs) =
           replicate (length cs) (resolver_state (post (hd (run_calls (init_state rc) cs))))
       \<and> (resolver_state (post (hd (run_calls (init_state rc) cs))) = Unavailable \<longrightarrow>
            map status (run_calls (init_state rc) cs) = replicate (length cs) (- 2))"
proof -
  from assms obtain p surface dataSpace cs' where cs: "cs = (p, surface, dataSpace) # cs'"
    by (cases cs) auto
  let ?r = "nativeSetBuffersDataSpace p (init_state rc) surface dataSpace"
  have rs: "run_calls (init_state rc) cs = ?r # run_calls (post ?r) cs'"
    by (simp add: cs Let_def)
  have fin: "resolved (post ?r) \<noteq> 0"
    by (simp add: statics_native resolved_resolve)
  note rest = run_calls_terminal [OF fin, of cs']
  have first: "length (filter is_default_lookup (events ?r)) = 1"
    by (simp add: native_unfold resolve_def resolve_in_lib_def log_resolution_def dispatch_def
        ANativeWindow_fromSurface_def ANativeWindow_release_def log_result_def init_state_def
        Let_def split: prod.splits)
  have later: "filter is_default_lookup (concat (map events (run_calls (post ?r) cs'))) = []"
    using rest by (intro default_lookup_is_lookup) simp
  have unres: "resolver_state (post ?r) \<noteq> Unresolved"
    using fin by (simp add: resolver_state_def)
  have unav: "resolver_state (post ?r) = Unavailable \<Longrightarrow> pfn (post ?r) = NULL"
    by (simp add: resolver_state_def split: if_splits)
  have st1: "status ?r = - 2" if "resolver_state (post ?r) = Unavailable"
  proof -
    from unav [OF that] have "pfn (fst (resolve p (init_state rc))) = NULL"
      by (simp only: statics_native)
    then show ?thesis
      by (simp add: native_unfold dispatch_unavailable)
  qed
  have len: "length cs = Suc (length cs')"
    by (simp add: cs)
  show ?thesis
    using first later rest unres unav st1 by (simp add: rs len)
qed

text \<open>
  The symbol is absent at the first call and present afterwards: all three calls return
  \<open>-2\<close>, and there is one default-scope lookup.
\<close>

theorem resolution_at_most_once_witness:
  "absent_then_present \<noteq> []
   \<and> resolver_state (post (hd (run_calls (init_state no_refs) absent_then_present))) = Unavailable
   \<and> map status (run_calls (init_state no_refs) absent_then_present) = [- 2, - 2, - 2]
   \<and> length (filter is_default_lookup
        (concat (map events (run_calls (init_state no_refs) absent_then_present)))) = 1"
proof -
  have n: "absent_then_present \<noteq> []"
    by (simp add: absent_then_present_def)
  have u: "resolver_state (post (hd (run_calls (init_state no_refs) absent_then_present)))
           = Unavailable"
    by (simp add: absent_then_present_def run_defs resolver_state_def)
  have l: "replicate (length absent_then_present) (- 2 :: int32) = [- 2, - 2, - 2]"
    by (simp add: absent_then_present_def)
  show ?thesis
    using n u resolution_at_most_once [OF n, of no_refs] by (simp add: l)
qed

text \<open>
  C4. When the resolver's outcome is available and the acquisition gives a window that is
  not null, the call acquires once and releases once, and the release is of the window it
  acquired; this holds whatever the setter returns, a failure code included. With the
  platform's counting (acquire adds one reference, release drops one, the setter itself
  keeps none), the reference counts after the call are those before it.
\<close>

theorem paired_acquire_release:
  assumes "resolver_state (fst (resolve p st)) = Available f"
    and "fromSurface p surface = w" and "w \<noteq> NULL"
  shows "filter is_acquire (events (nativeSetBuffersDataSpace p st surface dataSpace)) =
           [FromSurface surface]
       \<and> filter is_release (events (nativeSetBuffersDataSpace p st surface dataSpace)) =
           [Release w]
       \<and> refcount (post (nativeSetBuffersDataSpace p st surface dataSpace)) = refcount st"
proof -
  from assms(1) have f: "pfn (fst (resolve p st)) \<noteq> NULL"
    by (simp add: resolver_state_resolve_Available)
  from assms(2,3) have w: "fromSurface p surface \<noteq> NULL"
    by simp
  show ?thesis
    using assms(2)
    by (simp add: native_unfold dispatch_invoked [OF f w] filter_resolve_events log_result_def
        refcount_resolve)
qed

text \<open>The setter fails with \<open>-38\<close>; the window 4101 of surface 5 is released all the same.\<close>

theorem paired_acquire_release_witness:
  "resolver_state (fst (resolve (stub 77 0 0 (- 38)) (init_state no_refs))) = Available 77
   \<and> fromSurface (stub 77 0 0 (- 38)) 5 = 4101 \<and> (4101 :: ptr) \<noteq> NULL
   \<and> status (nativeSetBuffersDataSpace (stub 77 0 0 (- 38)) (init_state no_refs) 5 0) = - 38
   \<and> filter is_release
       (events (nativeSetBuffersDataSpace (stub 77 0 0 (- 38)) (init_state no_refs) 5 0))
       = [Release 4101]
   \<and> refcount (post (nativeSetBuffersDataSpace (stub 77 0 0 (- 38)) (init_state no_refs) 5 0))
       = no_refs"
proof -
  have a: "resolver_state (fst (resolve (stub 77 0 0 (- 38)) (init_state no_refs))) = Available 77"
    by (simp add: run_defs resolver_state_def)
  have s: "fromSurface (stub 77 0 0 (- 38)) 5 = 4101"
    by (simp add: stub_def)
  have w: "(4101 :: ptr) \<noteq> NULL"
    by simp
  have r: "status (nativeSetBuffersDataSpace (stub 77 0 0 (- 38)) (init_state no_refs) 5 0) = - 38"
    by (simp add: run_defs)
  have i: "refcount (init_state no_refs) = no_refs"
    by (simp add: init_state_def)
  show ?thesis
    using a s r paired_acquire_release [OF a s w, of 0] by (simp add: i)
qed

text \<open>
  C5. A call made while the resolver's outcome is unavailable returns \<open>-2\<close> and does nothing
  to the surface, whatever the surface and the data space are: its events are those of the
  resolution alone, so no native window is acquired or released and the setter is not
  invoked, and the reference counts are as before. When the outcome was unavailable
  already before the call, the call has no event at all and leaves the state as it was.
\<close>

theorem unavailable_returns_minus_2:
  assumes "resolver_state (fst (resolve p st)) = Unavailable"
  shows "status (nativeSetBuffersDataSpace p st surface dataSpace) = - 2
       \<and> events (nativeSetBuffersDataSpace p st surface dataSpace) = snd (resolve p st)
       \<and> filter is_acquire (events (nativeSetBuffersDataSpace p st surface dataSpace)) = []
       \<and> filter is_invoke (events (nativeSetBuffersDataSpace p st surface dataSpace)) = []
       \<and> filter is_release (events (nativeSetBuffersDataSpace p st surface dataSpace)) = []
       \<and> refcount (post (nativeSetBuffersDataSpace p st surface dataSpace)) = refcount st
       \<and> (resolver_state st = Unavailable \<longrightarrow>
            events (nativeSetBuffersDataSpace p st surface dataSpace) = []
          \<and> post (nativeSetBuffersDataSpace p st surface dataSpace) = st)"
proof -
  from assms have null: "pfn (fst (resolve p st)) = NULL"
    by (simp add: resolver_state_resolve_Unavailable)
  have r: "nativeSetBuffersDataSpace p st surface dataSpace =
           \<lparr>status = - 2, post = fst (resolve p st), events = snd (resolve p st)\<rparr>"
    by (simp add: native_unfold dispatch_unavailable [OF null])
  have idle: "resolver_state st = Unavailable \<Longrightarrow> resolve p st = (st, [])"
    by (rule resolve_done) (simp add: resolver_state_def split: if_splits)
  show ?thesis
    using idle by (simp add: r filter_resolve_events refcount_resolve)
qed

text \<open>
  The symbol is present on the platform, but the statics say "tried and failed": the call
  with the PQ data space on surface 5 returns \<open>-2\<close> and has no event.
\<close>

theorem unavailable_returns_minus_2_witness:
  "resolver_state (fst (resolve (stub 77 NULL NULL 0) unavailable_state)) = Unavailable
   \<and> resolver_state unavailable_state = Unavailable
   \<and> status (nativeSetBuffersDataSpace (stub 77 NULL NULL 0) unavailable_state 5 BT2020_PQ) = - 2
   \<and> events (nativeSetBuffersDataSpace (stub 77 NULL NULL 0) unavailable_state 5 BT2020_PQ) = []
   \<and> post (nativeSetBuffersDataSpace (stub 77 NULL NULL 0) unavailable_state 5 BT2020_PQ)
       = unavailable_state"
proof -
  have u: "resolver_state unavailable_state = Unavailable"
    by (simp add: resolver_state_def unavailable_state_def)
  have h: "resolver_state (fst (resolve (stub 77 NULL NULL 0) unavailable_state)) = Unavailable"
    by (simp add: resolve_def resolver_state_def unavailable_state_def)
  have r: "resolve (stub 77 NULL NULL 0) unavailable_state = (unavailable_state, [])"
    by (rule resolve_done) (simp add: unavailable_state_def)
  show ?thesis
    using u h unavailable_returns_minus_2 [OF h, of 5 BT2020_PQ] by (simp add: r)
qed

text \<open>
  C6. When the resolver's outcome is available and the acquisition gives the null window,
  the call returns \<open>-1\<close>, the setter is not invoked and nothing is released. The function
  does not look at the surface itself: any surface, the null one included, goes to the
  acquisition as it came, and the result of the acquisition decides.
\<close>

theorem acquisition_failure_returns_minus_1:
  assumes "resolver_state (fst (resolve p st)) = Available f"
    and "fromSurface p surface = NULL"
  shows "status (nativeSetBuffersDataSpace p st surface dataSpace) = - 1
       \<and> invocations (events (nativeSetBuffersDataSpace p st surface dataSpace)) = 0
       \<and> filter is_acquire (events (nativeSetBuffersDataSpace p st surface dataSpace)) =
           [FromSurface surface]
       \<and> filter is_release (events (nativeSetBuffersDataSpace p st surface dataSpace)) = []
       \<and> refcount (post (nativeSetBuffersDataSpace p st surface dataSpace)) = refcount st"
proof -
  from assms(1) have f: "pfn (fst (resolve p st)) \<noteq> NULL"
    by (simp add: resolver_state_resolve_Available)
  show ?thesis
    by (simp add: native_unfold dispatch_no_window [OF f assms(2)] invocations_def
        filter_resolve_events refcount_resolve)
qed

text \<open>The null surface, on a platform that has the symbol and no window for a null surface.\<close>

theorem acquisition_failure_returns_minus_1_witness:
  "resolver_state (fst (resolve (stub 77 0 0 0) (init_state no_refs))) = Available 77
   \<and> fromSurface (stub 77 0 0 0) NULL = NULL
   \<and> status (nativeSetBuffersDataSpace (stub 77 0 0 0) (init_state no_refs) NULL BT2020_PQ) = - 1
   \<and> invocations
       (events (nativeSetBuffersDataSpace (stub 77 0 0 0) (init_state no_refs) NULL BT2020_PQ)) = 0"
proof -
  have a: "resolver_state (fst (resolve (stub 77 0 0 0) (init_state no_refs))) = Available 77"
    by (simp add: run_defs resolver_state_def)
  have n: "fromSurface (stub 77 0 0 0) NULL = NULL"
    by (simp add: stub_def)
  show ?thesis
    using a n acquisition_failure_returns_minus_1 [OF a n, of BT2020_PQ] by simp
qed

text \<open>
  C7. When the resolver's outcome is available with the function \<open>f\<close> and the acquisition
  gives a window \<open>w\<close> that is not null, the call, after the events of the resolution, does
  exactly this, in this order: it acquires, it invokes \<open>f\<close> with \<open>w\<close> and the caller's
  data space, it releases \<open>w\<close>, it logs the result; and it returns the value \<open>r\<close> that
  \<open>f\<close> returned, 0 or not.
\<close>

theorem invoke_and_return_verbatim:
  assumes "resolver_state (fst (resolve p st)) = Available f"
    and "fromSurface p surface = w" and "w \<noteq> NULL"
  shows "status (nativeSetBuffersDataSpace p st surface dataSpace) = call_fn p f w dataSpace
       \<and> events (nativeSetBuffersDataSpace p st surface dataSpace) =
           snd (resolve p st) @
           [FromSurface surface, Invoke f w dataSpace, Release w,
            log_result dataSpace (call_fn p f w dataSpace)]"
proof -
  from assms(1) have f: "pfn (fst (resolve p st)) \<noteq> NULL" and g: "pfn (fst (resolve p st)) = f"
    by (simp_all add: resolver_state_resolve_Available)
  from assms(2,3) have w: "fromSurface p surface \<noteq> NULL"
    by simp
  show ?thesis
    using assms(2) g by (simp add: native_unfold dispatch_invoked [OF f w])
qed

text \<open>
  The symbol is found in the library only, and the setter returns \<open>-38\<close> for the data
  space 0: the status is \<open>-38\<close>.
\<close>

theorem invoke_and_return_verbatim_witness:
  "resolver_state (fst (resolve (stub 0 3 77 (- 38)) (init_state no_refs))) = Available 77
   \<and> fromSurface (stub 0 3 77 (- 38)) 5 = 4101 \<and> (4101 :: ptr) \<noteq> NULL
   \<and> status (nativeSetBuffersDataSpace (stub 0 3 77 (- 38)) (init_state no_refs) 5 0) = - 38
   \<and> sint (status (nativeSetBuffersDataSpace (stub 0 3 77 (- 38)) (init_state no_refs) 5 0))
       = - 38"
proof -
  have a: "resolver_state (fst (resolve (stub 0 3 77 (- 38)) (init_state no_refs))) = Available 77"
    by (simp add: run_defs resolver_state_def)
  have s: "fromSurface (stub 0 3 77 (- 38)) 5 = 4101"
    by (simp add: stub_def)
  have w: "(4101 :: ptr) \<noteq> NULL"
    by simp
  have c: "call_fn (stub 0 3 77 (- 38)) 77 4101 0 = - 38"
    by (simp add: stub_def)
  show ?thesis
    using a s invoke_and_return_verbatim [OF a s w, of 0] by (simp add: c)
qed

text \<open>
  C8. Whatever 32-bit data space the caller supplies, a recognised constant or not, the
  one invocation of the setter carries exactly that value, and the call returns what the
  setter returns for it (the resolver's outcome being available and the window acquired).
\<close>

theorem tag_passed_verbatim:
  assumes "resolver_state (fst (resolve p st)) = Available f"
    and "fromSurface p surface = w" and "w \<noteq> NULL"
  shows "filter is_invoke (events (nativeSetBuffersDataSpace p st surface dataSpace)) =
           [Invoke f w dataSpace]
       \<and> status (nativeSetBuffersDataSpace p st surface dataSpace) = call_fn p f w dataSpace"
proof -
  from assms(1) have f: "pfn (fst (resolve p st)) \<noteq> NULL" and g: "pfn (fst (resolve p st)) = f"
    by (simp_all add: resolver_state_resolve_Available)
  from assms(2,3) have w: "fromSurface p surface \<noteq> NULL"
    by simp
  show ?thesis
    using assms(2) g
    by (simp add: native_unfold dispatch_invoked [OF f w] filter_resolve_events log_result_def)
qed

text \<open>
  A platform whose setter accepts the two HDR constants and rejects any other value with
  \<open>-22\<close>; the value \<open>0xDEADBEEF\<close> reaches it as it is and its verdict comes back.
\<close>

theorem tag_passed_verbatim_witness:
  "resolver_state (fst (resolve picky_platform (init_state no_refs))) = Available 77
   \<and> fromSurface picky_platform 5 = 4101 \<and> (4101 :: ptr) \<noteq> NULL
   \<and> (0xDEADBEEF :: int32) \<noteq> BT2020_PQ \<and> (0xDEADBEEF :: int32) \<noteq> BT2020_HLG
   \<and> filter is_invoke
       (events (nativeSetBuffersDataSpace picky_platform (init_state no_refs) 5 0xDEADBEEF))
       = [Invoke 77 4101 0xDEADBEEF]
   \<and> status (nativeSetBuffersDataSpace picky_platform (init_state no_refs) 5 0xDEADBEEF) = - 22"
proof -
  have a: "resolver_state (fst (resolve picky_platform (init_state no_refs))) = Available 77"
    by (simp add: picky_platform_def run_defs resolver_state_def)
  have s: "fromSurface picky_platform 5 = 4101"
    by (simp add: picky_platform_def stub_def)
  have w: "(4101 :: ptr) \<noteq> NULL"
    by simp
  have d: "(0xDEADBEEF :: int32) \<noteq> BT2020_PQ \<and> (0xDEADBEEF :: int32) \<noteq> BT2020_HLG"
    by (simp add: BT2020_PQ_def BT2020_HLG_def)
  have c: "call_fn picky_platform 77 4101 0xDEADBEEF = - 22"
    using d by (simp add: picky_platform_def)
  show ?thesis
    using a s d tag_passed_verbatim [OF a s w, of "0xDEADBEEF"] by (simp add: c)
qed

text \<open>
  C9. A call that finds the resolver unresolved looks the symbol up in this order. First
  the default-scope lookup of the setter's name. When it finds the symbol, that is the
  only lookup: the library is not opened. Only when it finds nothing, the library is opened
  by name, lazily; when the library opened, the same name is looked up inside it, and when
  it did not open there is no further lookup. The pointer kept is the first one found, or
  null.
\<close>

theorem lookup_order:
  assumes "resolver_state st = Unresolved"
  shows "filter is_lookup (events (nativeSetBuffersDataSpace p st surface dataSpace)) =
          (if dlsym p RTLD_DEFAULT sym_name \<noteq> NULL then [Dlsym RTLD_DEFAULT sym_name]
           else if dlopen p lib_name RTLD_LAZY = NULL
             then [Dlsym RTLD_DEFAULT sym_name, Dlopen lib_name RTLD_LAZY]
           else [Dlsym RTLD_DEFAULT sym_name, Dlopen lib_name RTLD_LAZY,
                 Dlsym (Lib (dlopen p lib_name RTLD_LAZY)) sym_name])
       \<and> pfn (post (nativeSetBuffersDataSpace p st surface dataSpace)) =
          (if dlsym p RTLD_DEFAULT sym_name \<noteq> NULL then dlsym p RTLD_DEFAULT sym_name
           else if dlopen p lib_name RTLD_LAZY = NULL then NULL
           else dlsym p (Lib (dlopen p lib_name RTLD_LAZY)) sym_name)"
proof -
  from assms have u: "resolved st = 0"
    by (simp add: resolver_state_def split: if_splits)
  have "filter is_lookup (events (nativeSetBuffersDataSpace p st surface dataSpace)) =
        filter is_lookup (snd (resolve p st))"
    by (simp add: native_unfold lookup_events_dispatch)
  then show ?thesis
    using resolve_unresolved [OF u, of p] by (simp only: statics_native)
qed

text \<open>
  Three platforms: the symbol in the default scope (one lookup, although the library has
  it too), in the library only (three steps), and a library that does not open (two).
\<close>

theorem lookup_order_witness:
  "resolver_state (init_state no_refs) = Unresolved
   \<and> filter is_lookup
       (events (nativeSetBuffersDataSpace (stub 77 3 88 0) (init_state no_refs) 5 BT2020_PQ))
       = [Dlsym RTLD_DEFAULT sym_name]
   \<and> pfn (post (nativeSetBuffersDataSpace (stub 77 3 88 0) (init_state no_refs) 5 BT2020_PQ)) = 77
   \<and> filter is_lookup
       (events (nativeSetBuffersDataSpace (stub 0 3 88 0) (init_state no_refs) 5 BT2020_PQ))
       = [Dlsym RTLD_DEFAULT sym_name, Dlopen lib_name RTLD_LAZY, Dlsym (Lib 3) sym_name]
   \<and> pfn (post (nativeSetBuffersDataSpace (stub 0 3 88 0) (init_state no_refs) 5 BT2020_PQ)) = 88
   \<and> filter is_lookup
       (events (nativeSetBuffersDataSpace (stub 0 0 88 0) (init_state no_refs) 5 BT2020_PQ))
       = [Dlsym RTLD_DEFAULT sym_name, Dlopen lib_name RTLD_LAZY]
   \<and> pfn (post (nativeSetBuffersDataSpace (stub 0 0 88 0) (init_state no_refs) 5 BT2020_PQ)) = NULL"
proof -
  have u: "resolver_state (init_state no_refs) = Unresolved"
    by (simp add: resolver_state_def init_state_def)
  show ?thesis
    using u lookup_order [OF u, of "stub 77 3 88 0" 5 BT2020_PQ]
      lookup_order [OF u, of "stub 0 3 88 0" 5 BT2020_PQ]
      lookup_order [OF u, of "stub 0 0 88 0" 5 BT2020_PQ]
    by (simp add: stub_def)
qed




end
